theory Spec2Isabelle
  imports
    Complex_Main
    "HOL-Library.Sublist"
    "HOL-Library.Char_ord"
    "HOL-Library.List_Lexorder"
begin

section \<open>Strings of the query interpreter\<close>

text \<open>
  The query text is a \<^typ>\<open>string\<close>: each \<^typ>\<open>char\<close> is one code unit of the JavaScript
  string, read as the code point of the same number (U+0000 to U+00FF, that is ASCII and
  Latin-1).  The three string primitives \<open>parseSalesQuery\<close> calls are given on that range.
\<close>

text \<open>
  \<open>String.prototype.toLowerCase\<close>, one code unit at a time: the ASCII capitals \<open>A\<close> to \<open>Z\<close> and
  the Latin-1 capitals U+00C0 to U+00DE (the multiplication sign U+00D7 apart) move up by 32,
  every other code unit is kept.
\<close>

definition toLowerCase_char :: "char \<Rightarrow> char" where
  "toLowerCase_char c =
     (let n = (of_char c :: nat)
      in if (65 \<le> n \<and> n \<le> 90) \<or> (192 \<le> n \<and> n \<le> 222 \<and> n \<noteq> 215)
         then char_of (n + 32) else c)"

definition toLowerCase :: "string \<Rightarrow> string" where
  "toLowerCase s = map toLowerCase_char s"

text \<open>
  White space of \<open>trim\<close> and of the regular expression class \<open>\s\<close>: tab, line feed, vertical
  tab, form feed, carriage return, space and the no-break space U+00A0.
\<close>

definition isWhiteSpace :: "char \<Rightarrow> bool" where
  "isWhiteSpace c = ((of_char c :: nat) \<in> {9, 10, 11, 12, 13, 32, 160})"

definition trimStart :: "string \<Rightarrow> string" where
  "trimStart s = dropWhile isWhiteSpace s"

definition trimEnd :: "string \<Rightarrow> string" where
  "trimEnd s = rev (dropWhile isWhiteSpace (rev s))"

definition trim :: "string \<Rightarrow> string" where
  "trim s = trimEnd (trimStart s)"

text \<open>\<open>q.includes(pat)\<close>: \<open>pat\<close> starts at some position of \<open>q\<close>.\<close>

fun includes_str :: "string \<Rightarrow> string \<Rightarrow> bool" where
  "includes_str [] pat = (pat = [])"
| "includes_str (c # cs) pat = (prefix pat (c # cs) \<or> includes_str cs pat)"

section \<open>Regular expressions of the query interpreter\<close>

text \<open>
  The two regular expressions of \<open>parseSalesQuery\<close> are built from literal characters, the
  repetition \<open>\s+\<close> and a top-level alternation.  An alternative is a list of atoms; the
  alternation is the list of its alternatives, in the order they are written.
\<close>

datatype atom = Lit char | Spaces

text \<open>
  Matching one alternative at the start of a string gives the rest of the string behind the
  match.  \<open>\s+\<close> is greedy and backtracks: it first tries to take one more white space
  character, and gives it back when the rest of the alternative fails behind it.  Literals
  occur only in the expression of the stop phrases, which has the flag \<open>i\<close>: a literal matches
  a code unit of either case.
\<close>

fun match_atoms :: "atom list \<Rightarrow> string \<Rightarrow> string option" where
  "match_atoms [] s = Some s"
| "match_atoms (a # as) [] = None"
| "match_atoms (Lit p # as) (c # cs) =
     (if toLowerCase_char c = toLowerCase_char p then match_atoms as cs else None)"
| "match_atoms (Spaces # as) (c # cs) =
     (if isWhiteSpace c
      then (case match_atoms (Spaces # as) cs of
              Some r \<Rightarrow> Some r
            | None \<Rightarrow> match_atoms as cs)
      else None)"

text \<open>The alternation takes the first alternative that matches at the position.\<close>

fun match_alternation :: "atom list list \<Rightarrow> string \<Rightarrow> string option" where
  "match_alternation [] s = None"
| "match_alternation (alt # alts) s =
     (case match_atoms alt s of
        Some r \<Rightarrow> Some r
      | None \<Rightarrow> match_alternation alts s)"

text \<open>
  \<open>s.replace(/.../g, rep)\<close>: the matches are looked for from left to right; a match is
  replaced by \<open>rep\<close> and the search goes on behind it; where nothing matches the character is
  kept.  A match of length zero puts \<open>rep\<close> in front of the character, keeps the character
  and moves one position on; it is tried at the end of the string as well.
\<close>

function replace_global :: "atom list list \<Rightarrow> string \<Rightarrow> string \<Rightarrow> string" where
  "replace_global alts rep [] =
     (case match_alternation alts [] of Some r \<Rightarrow> rep | None \<Rightarrow> [])"
| "replace_global alts rep (c # cs) =
     (case match_alternation alts (c # cs) of
        Some r \<Rightarrow>
          (if length r < length (c # cs)
           then rep @ replace_global alts rep r
           else rep @ c # replace_global alts rep cs)
      | None \<Rightarrow> c # replace_global alts rep cs)"
  by pat_completeness auto
termination
  by (relation "measure (\<lambda>(alts, rep, s). length s)") auto

definition lit :: "string \<Rightarrow> atom list" where
  "lit s = map Lit s"

text \<open>\<open>/\s+/g\<close>, of the category normalisation.\<close>

definition whitespace_regex :: "atom list list" where
  "whitespace_regex = [[Spaces]]"

text \<open>The stop phrases of the name fallback, in the order of the source.\<close>

definition stop_regex :: "atom list list" where
  "stop_regex =
     [lit ''sales'', lit ''sale'', lit ''revenue'', lit ''for'', lit ''of'', lit ''what'',
      lit ''show'', lit ''get'',
      lit ''how'' @ [Spaces] @ lit ''many'',
      lit ''how'' @ [Spaces] @ lit ''much'',
      lit ''today'', lit ''weekly'',
      lit ''this'' @ [Spaces] @ lit ''week'',
      lit ''per'' @ [Spaces] @ lit ''day'']"

section \<open>The query interpreter\<close>

datatype period = Day | Week

datatype scope = Unscoped | ByType string | ByCategory string | ByNamePattern string

record interpreted =
  period :: period
  scope :: scope

datatype error = EmptyQuery

definition categoryMap :: "string list" where
  "categoryMap =
     [''shampoo'', ''conditioner'', ''gucci'', ''victoria secret'', ''victoria_secret'',
      ''body lotion'', ''body_lotion'', ''moisturizer'']"

text \<open>
  The loop over \<open>categoryMap\<close>: the first keyword found in the text is returned, with each
  of its white space runs replaced by an underscore.
\<close>

fun categoryLoop :: "string list \<Rightarrow> string \<Rightarrow> period \<Rightarrow> interpreted option" where
  "categoryLoop [] q per = None"
| "categoryLoop (cat # cats) q per =
     (if includes_str q cat
      then (let category = replace_global whitespace_regex ''_'' cat
            in Some \<lparr>period = per, scope = ByCategory category\<rparr>)
      else categoryLoop cats q per)"

text \<open>
  \<open>parseSalesQuery\<close>: the period is assigned three times in a row, then the first scope
  rule that applies returns.  An empty string is falsy, so \<open>query || ""\<close> is the query.
\<close>

definition parseSalesQuery :: "string \<Rightarrow> error + interpreted" where
  "parseSalesQuery query =
     (let q = trim (toLowerCase query)
      in if q = [] then Inl EmptyQuery
      else
        let period = Day;
            period = (if includes_str q ''week'' \<or> includes_str q ''weekly''
                         \<or> includes_str q ''this week''
                      then Week else period);
            period = (if includes_str q ''today'' then Day else period);
            period = (if includes_str q ''per day'' \<or> includes_str q ''daily''
                      then Day else period)
        in if includes_str q ''hair'' then Inr \<lparr>period = period, scope = ByType ''hair''\<rparr>
           else if includes_str q ''perfume''
             then Inr \<lparr>period = period, scope = ByType ''perfume''\<rparr>
           else if includes_str q ''skin'' then Inr \<lparr>period = period, scope = ByType ''skin''\<rparr>
           else (case categoryLoop categoryMap q period of
                   Some r \<Rightarrow> Inr r
                 | None \<Rightarrow>
                     (let nameHint = trim (replace_global stop_regex [] q)
                      in if nameHint \<noteq> []
                         then Inr \<lparr>period = period, scope = ByNamePattern nameHint\<rparr>
                         else Inr \<lparr>period = period, scope = Unscoped\<rparr>)))"

section \<open>The catalogue and its queries\<close>

text \<open>
  A row of the table \<open>products\<close>, with the columns the queries read.  The columns \<open>cost\<close> and
  \<open>sales_per_day\<close> are numbers; they are taken as exact rationals, so the rounding of the
  floating point operations is left out.
\<close>

record product =
  p_id :: nat
  p_name :: string
  p_type :: string
  p_category :: string
  p_cost :: rat
  p_sales_per_day :: rat

text \<open>
  The operator \<open>LIKE\<close> of the store: \<open>%\<close> stands for any run of characters, \<open>_\<close> for any one
  character, and an ASCII letter matches in either case.
\<close>

definition ascii_lower :: "char \<Rightarrow> char" where
  "ascii_lower c =
     (let n = (of_char c :: nat) in if 65 \<le> n \<and> n \<le> 90 then char_of (n + 32) else c)"

fun like :: "string \<Rightarrow> string \<Rightarrow> bool" where
  "like [] s = (s = [])"
| "like (p # ps) [] = (p = CHR ''%'' \<and> like ps [])"
| "like (p # ps) (c # cs) =
     (if p = CHR ''%'' then like ps (c # cs) \<or> like (p # ps) cs
      else (p = CHR ''_'' \<or> ascii_lower p = ascii_lower c) \<and> like ps cs)"

text \<open>
  \<open>ORDER BY name\<close> and \<open>ORDER BY weekly_sales DESC\<close>.  Text is compared code unit by code
  unit.  The store leaves the order of rows with equal keys open; here they keep the order of
  the table.
\<close>

definition order_by_name :: "product list \<Rightarrow> product list" where
  "order_by_name rows = sort_key p_name rows"

definition order_by_weekly_sales_desc :: "product list \<Rightarrow> product list" where
  "order_by_weekly_sales_desc rows = sort_key (\<lambda>p. - (p_sales_per_day p * 7)) rows"

subsection \<open>The natural language query\<close>

text \<open>The \<open>WHERE\<close> clause the handler builds from the scope.\<close>

fun scope_where :: "scope \<Rightarrow> product \<Rightarrow> bool" where
  "scope_where Unscoped p = True"
| "scope_where (ByType t) p = (p_type p = t)"
| "scope_where (ByCategory c) p = (p_category p = c)"
| "scope_where (ByNamePattern n) p = like (''%'' @ n @ ''%'') (p_name p)"

record item =
  r_id :: nat
  r_name :: string
  r_type :: string
  r_category :: string
  r_cost :: rat
  r_sales :: rat
  r_revenue :: rat
  r_period :: period

record totals =
  total_sales :: rat
  total_revenue :: rat

record query_response =
  q_interpreted :: interpreted
  q_totals :: totals
  q_items :: "item list"

text \<open>The callback of \<open>products.map\<close>.\<close>

definition lineItem :: "period \<Rightarrow> product \<Rightarrow> item" where
  "lineItem per p =
     (let daily = p_sales_per_day p;
          weekly = daily * 7;
          sales = (if per = Week then weekly else daily);
          revenue = sales * p_cost p
      in \<lparr>r_id = p_id p, r_name = p_name p, r_type = p_type p, r_category = p_category p,
          r_cost = p_cost p, r_sales = sales, r_revenue = revenue, r_period = per\<rparr>)"

text \<open>
  The metrics of the handler (\<open>computeLineItems\<close> of the specification): the mapped rows and
  the two \<open>reduce\<close> calls, each a fold from the left starting at 0.
\<close>

definition computeLineItems :: "product list \<Rightarrow> period \<Rightarrow> item list \<times> totals" where
  "computeLineItems products per =
     (let results = map (lineItem per) products;
          totalSales = foldl (\<lambda>s r. s + r_sales r) 0 results;
          totalRevenue = foldl (\<lambda>s r. s + r_revenue r) 0 results
      in (results, \<lparr>total_sales = totalSales, total_revenue = totalRevenue\<rparr>))"

text \<open>\<open>POST /api/query\<close> on a table: status 400 with the error, or the response.\<close>

definition api_query :: "product list \<Rightarrow> string \<Rightarrow> error + query_response" where
  "api_query table question =
     (case parseSalesQuery question of
        Inl e \<Rightarrow> Inl e
      | Inr parsed \<Rightarrow>
          (let products = order_by_name (filter (scope_where (scope parsed)) table);
               (results, tot) = computeLineItems products (period parsed)
           in Inr \<lparr>q_interpreted = parsed, q_totals = tot, q_items = results\<rparr>))"

subsection \<open>Listing\<close>

text \<open>
  \<open>GET /api/products\<close> and the tool \<open>get_products\<close>: the same statement in both front ends.  A
  filter that is absent or the empty string is \<open>None\<close>.
\<close>

definition list_where :: "string option \<Rightarrow> string option \<Rightarrow> string option \<Rightarrow> product \<Rightarrow> bool" where
  "list_where name_f type_f category_f p =
     ((case name_f of None \<Rightarrow> True | Some n \<Rightarrow> like (''%'' @ n @ ''%'') (p_name p))
      \<and> (case type_f of None \<Rightarrow> True | Some t \<Rightarrow> p_type p = t)
      \<and> (case category_f of None \<Rightarrow> True | Some c \<Rightarrow> p_category p = c))"

definition api_products ::
  "product list \<Rightarrow> string option \<Rightarrow> string option \<Rightarrow> string option \<Rightarrow> product list" where
  "api_products table name_f type_f category_f =
     order_by_name (filter (list_where name_f type_f category_f) table)"

definition get_products ::
  "product list \<Rightarrow> string option \<Rightarrow> string option \<Rightarrow> string option \<Rightarrow> product list" where
  "get_products table name_f type_f category_f =
     order_by_name (filter (list_where name_f type_f category_f) table)"

subsection \<open>Weekly sales\<close>

record sales_row = product +
  weekly_sales :: rat
  weekly_revenue :: rat

definition weekly_row :: "product \<Rightarrow> sales_row" where
  "weekly_row p =
     \<lparr>p_id = p_id p, p_name = p_name p, p_type = p_type p, p_category = p_category p,
      p_cost = p_cost p, p_sales_per_day = p_sales_per_day p,
      weekly_sales = p_sales_per_day p * 7,
      weekly_revenue = p_sales_per_day p * 7 * p_cost p\<rparr>"

text \<open>
  \<open>GET /api/sales/weekly\<close> and the tool \<open>get_weekly_sales\<close>: three statements, chosen by the
  parameters.  A parameter that is absent or falsy is \<open>None\<close>.  The statement for one product
  has no \<open>ORDER BY\<close>.
\<close>

definition weekly_select :: "product list \<Rightarrow> string option \<Rightarrow> nat option \<Rightarrow> sales_row list" where
  "weekly_select table type_f product_id =
     (case product_id of
        Some i \<Rightarrow> map weekly_row (filter (\<lambda>p. p_id p = i) table)
      | None \<Rightarrow>
          (case type_f of
             Some t \<Rightarrow> map weekly_row (order_by_weekly_sales_desc (filter (\<lambda>p. p_type p = t) table))
           | None \<Rightarrow> map weekly_row (order_by_weekly_sales_desc table)))"

record weekly_response =
  total_weekly_sales :: rat
  total_weekly_revenue :: rat
  w_products :: "sales_row list"

definition weekly_totals :: "sales_row list \<Rightarrow> weekly_response" where
  "weekly_totals sales =
     (let totalWeeklySales = foldl (\<lambda>sum item. sum + weekly_sales item) 0 sales;
          totalWeeklyRevenue = foldl (\<lambda>sum item. sum + weekly_revenue item) 0 sales
      in \<lparr>total_weekly_sales = totalWeeklySales, total_weekly_revenue = totalWeeklyRevenue,
          w_products = sales\<rparr>)"

definition api_sales_weekly :: "product list \<Rightarrow> string option \<Rightarrow> nat option \<Rightarrow> weekly_response" where
  "api_sales_weekly table type_f product_id = weekly_totals (weekly_select table type_f product_id)"

definition get_weekly_sales :: "product list \<Rightarrow> string option \<Rightarrow> nat option \<Rightarrow> weekly_response" where
  "get_weekly_sales table type_f product_id = weekly_totals (weekly_select table type_f product_id)"

subsection \<open>Cost statistics by type\<close>

text \<open>
  A number as an aggregate of the store returns it for a column of type \<open>REAL\<close>: a double
  precision value.  A finite value is read as the rational it denotes; a sum that overflows
  is an infinity; a result that is not a number is returned as \<open>NULL\<close>.
\<close>

datatype sql_real = Real rat | PosInfinity | NegInfinity | Null




subsection \<open>The sample catalogue\<close>

text \<open>The six rows the server inserts into an empty table, with the identifiers 1 to 6.\<close>

definition sampleProducts :: "product list" where
  "sampleProducts =
     [\<lparr>p_id = 1, p_name = ''Shampoo Pro'', p_type = ''hair'', p_category = ''shampoo'',
        p_cost = 1299 / 100, p_sales_per_day = 15\<rparr>,
      \<lparr>p_id = 2, p_name = ''Conditioner Plus'', p_type = ''hair'', p_category = ''conditioner'',
        p_cost = 1499 / 100, p_sales_per_day = 12\<rparr>,
      \<lparr>p_id = 3, p_name = ''Gucci Bloom'', p_type = ''perfume'', p_category = ''gucci'',
        p_cost = 8999 / 100, p_sales_per_day = 8\<rparr>,
      \<lparr>p_id = 4, p_name = ''Victoria Secret Angel'', p_type = ''perfume'',
        p_category = ''victoria_secret'', p_cost = 6599 / 100, p_sales_per_day = 10\<rparr>,
      \<lparr>p_id = 5, p_name = ''Body Lotion Smooth'', p_type = ''skin'', p_category = ''body_lotion'',
        p_cost = 1899 / 100, p_sales_per_day = 20\<rparr>,
      \<lparr>p_id = 6, p_name = ''Moisturizer Daily'', p_type = ''skin'', p_category = ''moisturizer'',
        p_cost = 2499 / 100, p_sales_per_day = 18\<rparr>]"

section \<open>The rules of the specification\<close>

text \<open>
  The specification gives the interpreter as ordered rule tables.  They are written here
  from its words, to be compared with \<open>parseSalesQuery\<close>.
\<close>

definition type_keywords :: "string list" where
  "type_keywords = [''hair'', ''perfume'', ''skin'']"

text \<open>
  Rules 3 and 4 of the scope: the stop phrases are stripped; a remainder that is not blank
  is the name pattern, otherwise the request is unscoped.
\<close>

definition name_fallback :: "string \<Rightarrow> scope" where
  "name_fallback q =
     (let rest = trim (replace_global stop_regex [] q)
      in if rest \<noteq> [] then ByNamePattern rest else Unscoped)"

text \<open>The priority chain of the scope: the first rule that matches decides.\<close>

definition scope_chain :: "string \<Rightarrow> scope" where
  "scope_chain q =
     (case find (includes_str q) type_keywords of
        Some t \<Rightarrow> ByType t
      | None \<Rightarrow>
          (case find (includes_str q) categoryMap of
             Some cat \<Rightarrow> ByCategory (replace_global whitespace_regex ''_'' cat)
           | None \<Rightarrow> name_fallback q))"

text \<open>
  The rules of the period after the default, in their order: each is a list of phrases and
  the period it sets.  A later rule overrides an earlier one.
\<close>

definition period_rules :: "(string list \<times> period) list" where
  "period_rules =
     [([''week'', ''weekly'', ''this week''], Week),
      ([''today''], Day),
      ([''per day'', ''daily''], Day)]"

definition period_by_rules :: "string \<Rightarrow> period" where
  "period_by_rules q =
     foldl (\<lambda>p (kws, v). if list_ex (includes_str q) kws then v else p) Day period_rules"

text \<open>A white space run becomes one underscore, read off the text from left to right.\<close>

function underscore_runs :: "string \<Rightarrow> string" where
  "underscore_runs [] = []"
| "underscore_runs (c # cs) =
     (if isWhiteSpace c then CHR ''_'' # underscore_runs (dropWhile isWhiteSpace cs)
      else c # underscore_runs cs)"
  by pat_completeness auto
termination
  by (relation "measure length") (auto simp: less_Suc_eq_le length_dropWhile_le)

text \<open>Whether a scope is a name pattern.\<close>

definition isByNamePattern :: "scope \<Rightarrow> bool" where
  "isByNamePattern sc = (case sc of ByNamePattern n \<Rightarrow> True | _ \<Rightarrow> False)"

section \<open>Facts about the string primitives\<close>

lemma toLowerCase_char_idem: "toLowerCase_char (toLowerCase_char c) = toLowerCase_char c"
  unfolding toLowerCase_char_def Let_def
  by (auto simp: of_char_of)

lemma isWhiteSpace_toLowerCase_char: "isWhiteSpace (toLowerCase_char c) = isWhiteSpace c"
  unfolding toLowerCase_char_def isWhiteSpace_def Let_def
  by (auto simp: of_char_of)

lemma toLowerCase_idem: "toLowerCase (toLowerCase s) = toLowerCase s"
  by (simp add: toLowerCase_def toLowerCase_char_idem)

text \<open>\<open>includes_str\<close> is the contiguous sublist relation of the library.\<close>

lemma includes_str_sublist: "includes_str q pat = sublist pat q"
  by (induction q) (auto simp: sublist_Cons_right)

lemma dropWhile_all_Nil: "(\<forall>x\<in>set (dropWhile P xs). P x) \<longleftrightarrow> dropWhile P xs = []"
proof
  assume a: "\<forall>x\<in>set (dropWhile P xs). P x"
  show "dropWhile P xs = []"
  proof (rule ccontr)
    assume n: "dropWhile P xs \<noteq> []"
    then have "\<not> P (hd (dropWhile P xs))" by (rule hd_dropWhile)
    moreover from n have "hd (dropWhile P xs) \<in> set (dropWhile P xs)" by simp
    ultimately show False using a by blast
  qed
qed (auto dest: set_dropWhileD)

lemma trimEnd_Nil_iff: "trimEnd s = [] \<longleftrightarrow> (\<forall>c\<in>set s. isWhiteSpace c)"
  by (simp add: trimEnd_def dropWhile_eq_Nil_conv)

lemma trim_Nil_iff: "trim s = [] \<longleftrightarrow> (\<forall>c\<in>set s. isWhiteSpace c)"
proof -
  have "trim s = [] \<longleftrightarrow> (\<forall>c\<in>set (dropWhile isWhiteSpace s). isWhiteSpace c)"
    by (simp add: trim_def trimEnd_Nil_iff trimStart_def)
  also have "\<dots> \<longleftrightarrow> dropWhile isWhiteSpace s = []" by (rule dropWhile_all_Nil)
  also have "\<dots> \<longleftrightarrow> (\<forall>c\<in>set s. isWhiteSpace c)" by (simp add: dropWhile_eq_Nil_conv)
  finally show ?thesis .
qed

lemma set_trim: "set (trim s) \<subseteq> set s"
proof -
  have "set (trim s) \<subseteq> set (dropWhile isWhiteSpace s)"
    unfolding trim_def trimEnd_def trimStart_def
    using set_dropWhileD by fastforce
  also have "\<dots> \<subseteq> set s" using set_dropWhileD by fastforce
  finally show ?thesis .
qed

lemma trim_toLowerCase_Nil_iff:
  "trim (toLowerCase s) = [] \<longleftrightarrow> (\<forall>c\<in>set s. isWhiteSpace c)"
  by (simp add: trim_Nil_iff toLowerCase_def isWhiteSpace_toLowerCase_char)

text \<open>A match leaves a suffix of the text, so a replacement by nothing only deletes.\<close>

lemma match_atoms_suffix: "match_atoms as s = Some r \<Longrightarrow> suffix r s"
  by (induction as s rule: match_atoms.induct)
    (auto split: if_splits option.splits simp: suffix_Cons)

lemma match_alternation_suffix: "match_alternation alts s = Some r \<Longrightarrow> suffix r s"
  by (induction alts) (auto split: option.splits dest: match_atoms_suffix)

lemma set_replace_global: "set (replace_global alts [] s) \<subseteq> set s"
proof (induction alts "[] :: string" s rule: replace_global.induct)
  case (1 alts)
  then show ?case by (simp split: option.splits)
next
  case (2 alts c cs)
  show ?case
  proof (cases "match_alternation alts (c # cs)")
    case None
    with 2 show ?thesis by auto
  next
    case (Some r)
    then have "set r \<subseteq> set (c # cs)"
      using match_alternation_suffix set_mono_suffix by blast
    with 2 Some show ?thesis by (auto split: if_splits)
  qed
qed

text \<open>
  A keyword of the tables that occurs in the query as it was typed still occurs after the
  query is lower-cased and trimmed.
\<close>

lemma sublist_trim:
  assumes "sublist kw s" and "kw \<noteq> []"
    and "\<not> isWhiteSpace (hd kw)" and "\<not> isWhiteSpace (last kw)"
  shows "sublist kw (trim s)"
proof -
  from assms(1) obtain ps ss where s: "s = ps @ kw @ ss" by (auto simp: sublist_def)
  from assms(2) obtain k ks where kw: "kw = k # ks" by (cases kw) auto
  with assms(3) have k: "\<not> isWhiteSpace k" by simp
  have "trimStart s = dropWhile isWhiteSpace ps @ kw @ ss"
    unfolding trimStart_def s kw using k by (simp add: dropWhile_append3)
  moreover
  have "trimEnd (xs @ kw @ ss) = xs @ kw @ rev (dropWhile isWhiteSpace (rev ss))" for xs
  proof -
    from assms(2) have rk: "rev kw = last kw # rev (butlast kw)"
      by (simp add: rev_eq_Cons_iff)
    have "dropWhile isWhiteSpace (rev (xs @ kw @ ss))
            = dropWhile isWhiteSpace (rev ss) @ rev kw @ rev xs"
      using assms(4) by (simp add: rk dropWhile_append3)
    then show ?thesis by (simp add: trimEnd_def)
  qed
  ultimately have "trim s = dropWhile isWhiteSpace ps @ kw @ rev (dropWhile isWhiteSpace (rev ss))"
    by (simp add: trim_def)
  then show ?thesis by (simp add: sublist_def) blast
qed

lemma includes_str_query:
  assumes "includes_str s kw" and "kw \<noteq> []" and "toLowerCase kw = kw"
    and "\<not> isWhiteSpace (hd kw)" and "\<not> isWhiteSpace (last kw)"
  shows "includes_str (trim (toLowerCase s)) kw"
proof -
  from assms(1) have "sublist (toLowerCase kw) (toLowerCase s)"
    unfolding toLowerCase_def includes_str_sublist by (rule map_mono_sublist)
  with assms(3) have "sublist kw (toLowerCase s)" by simp
  from sublist_trim [OF this assms(2,4,5)] show ?thesis by (simp add: includes_str_sublist)
qed

lemma keyword_shape:
  "\<forall>kw\<in>set (type_keywords @ categoryMap).
     kw \<noteq> [] \<and> toLowerCase kw = kw \<and> \<not> isWhiteSpace (hd kw) \<and> \<not> isWhiteSpace (last kw)"
  by code_simp

lemma keyword_in_query:
  assumes "kw \<in> set (type_keywords @ categoryMap)" and "includes_str s kw"
  shows "includes_str (trim (toLowerCase s)) kw"
  using includes_str_query [OF assms(2)] keyword_shape assms(1) by blast

text \<open>The category normalisation replaces each white space run by one underscore.\<close>

lemma match_spaces:
  "match_atoms [Spaces] (c # cs) = (if isWhiteSpace c then Some (dropWhile isWhiteSpace cs) else None)"
  by (induction cs arbitrary: c) simp_all

lemma replace_whitespace_underscore:
  "replace_global whitespace_regex ''_'' s = underscore_runs s"
proof (induction s rule: underscore_runs.induct)
  case 1
  then show ?case by (simp add: whitespace_regex_def)
next
  case (2 c cs)
  have len: "length (dropWhile isWhiteSpace cs) < Suc (length cs)"
    by (simp add: less_Suc_eq_le length_dropWhile_le)
  from 2 len show ?case
    by (simp add: whitespace_regex_def match_spaces del: match_atoms.simps)
qed

lemma find_first_index:
  assumes "i < length xs" and "P (xs ! i)" and "\<forall>j<i. \<not> P (xs ! j)"
  shows "find P xs = Some (xs ! i)"
  using assms by (simp add: find_Some_iff) blast

section \<open>The interpreter follows the rule tables\<close>

lemma categoryLoop_find:
  "categoryLoop cats q per =
     map_option
       (\<lambda>cat. \<lparr>period = per, scope = ByCategory (replace_global whitespace_regex ''_'' cat)\<rparr>)
       (find (includes_str q) cats)"
  by (induction cats) (simp_all add: Let_def)

lemma parseSalesQuery_nonempty:
  assumes "trim (toLowerCase s) = q" and "q \<noteq> []"
  shows "parseSalesQuery s = Inr \<lparr>period = period_by_rules q, scope = scope_chain q\<rparr>"
  using assms
  unfolding parseSalesQuery_def period_by_rules_def period_rules_def scope_chain_def
    type_keywords_def name_fallback_def categoryLoop_find
  by (simp add: Let_def split: option.splits)

lemma parseSalesQuery_empty:
  "trim (toLowerCase s) = [] \<Longrightarrow> parseSalesQuery s = Inl EmptyQuery"
  by (simp add: parseSalesQuery_def)

lemma parseSalesQuery_Inl_iff:
  "parseSalesQuery s = Inl e \<longleftrightarrow> trim (toLowerCase s) = []"
proof (cases "trim (toLowerCase s) = []")
  case True
  then show ?thesis by (cases e) (simp add: parseSalesQuery_empty)
next
  case False
  then show ?thesis using parseSalesQuery_nonempty [OF refl False] by simp
qed

section \<open>The empty query\<close>

text \<open>
  C3.  \<open>parseSalesQuery\<close> returns the error exactly when the lower-cased, trimmed query is
  empty, that is exactly when every character of the query is white space: the empty query
  and the query of three spaces give the error, and a query with a character that is not
  white space gives an interpreted request.
\<close>

theorem empty_query_error:
  "(parseSalesQuery s = Inl EmptyQuery \<longleftrightarrow> trim (toLowerCase s) = [])
   \<and> (parseSalesQuery s = Inl EmptyQuery \<longleftrightarrow> (\<forall>c\<in>set s. isWhiteSpace c))
   \<and> ((\<exists>c\<in>set s. \<not> isWhiteSpace c) \<longrightarrow> (\<exists>r. parseSalesQuery s = Inr r))
   \<and> parseSalesQuery [] = Inl EmptyQuery
   \<and> parseSalesQuery ''   '' = Inl EmptyQuery"
proof -
  have a: "parseSalesQuery s = Inl EmptyQuery \<longleftrightarrow> trim (toLowerCase s) = []"
    by (rule parseSalesQuery_Inl_iff)
  have b: "parseSalesQuery s = Inl EmptyQuery \<longleftrightarrow> (\<forall>c\<in>set s. isWhiteSpace c)"
    by (simp add: a trim_toLowerCase_Nil_iff)
  have c: "(\<exists>c\<in>set s. \<not> isWhiteSpace c) \<longrightarrow> (\<exists>r. parseSalesQuery s = Inr r)"
  proof
    assume "\<exists>c\<in>set s. \<not> isWhiteSpace c"
    then have "trim (toLowerCase s) \<noteq> []" by (simp add: trim_toLowerCase_Nil_iff)
    from parseSalesQuery_nonempty [OF refl this] show "\<exists>r. parseSalesQuery s = Inr r" by blast
  qed
  have d: "parseSalesQuery [] = Inl EmptyQuery" by code_simp
  have e: "parseSalesQuery ''   '' = Inl EmptyQuery" by code_simp
  from a b c d e show ?thesis by blast
qed

theorem empty_query_error_witness:
  "(\<exists>c\<in>set '' a ''. \<not> isWhiteSpace c) \<and> (\<exists>r. parseSalesQuery '' a '' = Inr r)"
proof -
  have "\<not> isWhiteSpace CHR ''a''" by code_simp
  then have h: "\<exists>c\<in>set '' a ''. \<not> isWhiteSpace c" by simp
  with empty_query_error [of "'' a ''"] show ?thesis by blast
qed

section \<open>Case of the query\<close>

text \<open>
  C9.  The interpreter does not see the case of the query: a query and its lower-cased form
  have the same result, and a name pattern it returns is its own lower-cased form.
\<close>

theorem case_insensitive:
  "parseSalesQuery (toLowerCase s) = parseSalesQuery s
   \<and> (\<forall>r n. parseSalesQuery s = Inr r \<and> scope r = ByNamePattern n \<longrightarrow> toLowerCase n = n)"
proof -
  have a: "parseSalesQuery (toLowerCase s) = parseSalesQuery s"
    by (simp add: parseSalesQuery_def toLowerCase_idem)
  have b: "toLowerCase n = n" if r: "parseSalesQuery s = Inr r" and n: "scope r = ByNamePattern n"
    for r n
  proof -
    define q where "q = trim (toLowerCase s)"
    from r have ne: "q \<noteq> []"
      using parseSalesQuery_Inl_iff [of s EmptyQuery] by (auto simp: q_def)
    from parseSalesQuery_nonempty [OF q_def [symmetric] ne] r n
    have "scope_chain q = ByNamePattern n" by auto
    then have "n = trim (replace_global stop_regex [] q)"
      by (auto simp: scope_chain_def name_fallback_def Let_def split: option.splits if_splits)
    then have "set n \<subseteq> set q" using set_trim set_replace_global by blast
    also have "\<dots> \<subseteq> set (toLowerCase s)" unfolding q_def by (rule set_trim)
    finally have "\<forall>c\<in>set n. toLowerCase_char c = c"
      by (auto simp: toLowerCase_def toLowerCase_char_idem)
    then show ?thesis by (simp add: toLowerCase_def map_idI)
  qed
  from a b show ?thesis by blast
qed

theorem case_insensitive_witness:
  "parseSalesQuery ''Luxury SOAP'' = Inr \<lparr>period = Day, scope = ByNamePattern ''luxury soap''\<rparr>
   \<and> parseSalesQuery (toLowerCase ''Luxury SOAP'') = parseSalesQuery ''Luxury SOAP''
   \<and> toLowerCase ''luxury soap'' = ''luxury soap''"
proof -
  have h: "parseSalesQuery ''Luxury SOAP''
             = Inr \<lparr>period = Day, scope = ByNamePattern ''luxury soap''\<rparr>"
    by code_simp
  with case_insensitive [of "''Luxury SOAP''"] show ?thesis by simp
qed

section \<open>Resolution of the scope\<close>

text \<open>
  C1.  For a query whose lower-cased, trimmed text \<open>q\<close> is not empty, the scope is decided by
  the first rule that matches: the type keywords in the order hair, perfume, skin, then the
  category keywords, then the name fallback, then no scope.  A query that contains a type
  keyword, in \<open>q\<close> or as it was typed, gets the scope of a type and never that of a category,
  whatever category keywords it contains.
\<close>

theorem scope_priority_chain:
  assumes "trim (toLowerCase s) = q" and "q \<noteq> []"
  shows "\<exists>r. parseSalesQuery s = Inr r
     \<and> scope r = scope_chain q
     \<and> (includes_str q ''hair'' \<longrightarrow> scope r = ByType ''hair'')
     \<and> (\<not> includes_str q ''hair'' \<and> includes_str q ''perfume'' \<longrightarrow> scope r = ByType ''perfume'')
     \<and> (\<not> includes_str q ''hair'' \<and> \<not> includes_str q ''perfume'' \<and> includes_str q ''skin''
          \<longrightarrow> scope r = ByType ''skin'')
     \<and> (\<not> list_ex (includes_str q) type_keywords
          \<longrightarrow> (\<forall>cat. find (includes_str q) categoryMap = Some cat
                 \<longrightarrow> scope r = ByCategory (replace_global whitespace_regex ''_'' cat)))
     \<and> (\<not> list_ex (includes_str q) type_keywords \<and> \<not> list_ex (includes_str q) categoryMap
          \<longrightarrow> scope r = name_fallback q
            \<and> (scope r = Unscoped \<or> scope r = ByNamePattern (trim (replace_global stop_regex [] q))))
     \<and> ((list_ex (includes_str q) type_keywords \<or> list_ex (includes_str s) type_keywords)
          \<longrightarrow> (\<exists>t\<in>set type_keywords. scope r = ByType t) \<and> (\<forall>c. scope r \<noteq> ByCategory c))"
proof -
  let ?r = "\<lparr>period = period_by_rules q, scope = scope_chain q\<rparr>"
  have r: "parseSalesQuery s = Inr ?r" by (rule parseSalesQuery_nonempty [OF assms])
  have sc: "scope ?r = scope_chain q" by simp
  have hair: "includes_str q ''hair'' \<longrightarrow> scope ?r = ByType ''hair''"
    by (simp add: scope_chain_def type_keywords_def)
  have perfume: "\<not> includes_str q ''hair'' \<and> includes_str q ''perfume''
      \<longrightarrow> scope ?r = ByType ''perfume''"
    by (simp add: scope_chain_def type_keywords_def)
  have skin: "\<not> includes_str q ''hair'' \<and> \<not> includes_str q ''perfume'' \<and> includes_str q ''skin''
      \<longrightarrow> scope ?r = ByType ''skin''"
    by (simp add: scope_chain_def type_keywords_def)
  have none: "find (includes_str q) type_keywords = None"
    if "\<not> list_ex (includes_str q) type_keywords"
    using that by (simp add: find_None_iff list_ex_iff)
  have cat: "\<not> list_ex (includes_str q) type_keywords
      \<longrightarrow> (\<forall>cat. find (includes_str q) categoryMap = Some cat
             \<longrightarrow> scope ?r = ByCategory (replace_global whitespace_regex ''_'' cat))"
    using none by (simp add: scope_chain_def)
  have name: "\<not> list_ex (includes_str q) type_keywords \<and> \<not> list_ex (includes_str q) categoryMap
      \<longrightarrow> scope ?r = name_fallback q
        \<and> (scope ?r = Unscoped
           \<or> scope ?r = ByNamePattern (trim (replace_global stop_regex [] q)))"
  proof
    assume a: "\<not> list_ex (includes_str q) type_keywords \<and> \<not> list_ex (includes_str q) categoryMap"
    then have "find (includes_str q) categoryMap = None"
      by (simp add: find_None_iff list_ex_iff)
    with a none have "scope_chain q = name_fallback q" by (simp add: scope_chain_def)
    then show "scope ?r = name_fallback q
        \<and> (scope ?r = Unscoped
           \<or> scope ?r = ByNamePattern (trim (replace_global stop_regex [] q)))"
      by (simp add: name_fallback_def Let_def)
  qed
  have raw: "list_ex (includes_str q) type_keywords" if "list_ex (includes_str s) type_keywords"
  proof -
    from that obtain t where t: "t \<in> set type_keywords" "includes_str s t"
      by (auto simp: list_ex_iff)
    then have "includes_str (trim (toLowerCase s)) t" by (intro keyword_in_query) auto
    with t assms(1) show ?thesis by (auto simp: list_ex_iff)
  qed
  have both: "(list_ex (includes_str q) type_keywords \<or> list_ex (includes_str s) type_keywords)
      \<longrightarrow> (\<exists>t\<in>set type_keywords. scope ?r = ByType t) \<and> (\<forall>c. scope ?r \<noteq> ByCategory c)"
  proof
    assume "list_ex (includes_str q) type_keywords \<or> list_ex (includes_str s) type_keywords"
    with raw have "list_ex (includes_str q) type_keywords" by blast
    then obtain t where t: "find (includes_str q) type_keywords = Some t"
      by (cases "find (includes_str q) type_keywords") (auto simp: find_None_iff list_ex_iff)
    then have "t \<in> set type_keywords" by (auto simp: find_Some_iff)
    with t show "(\<exists>t\<in>set type_keywords. scope ?r = ByType t) \<and> (\<forall>c. scope ?r \<noteq> ByCategory c)"
      by (auto simp: scope_chain_def)
  qed
  show ?thesis
    by (intro exI [of _ ?r] conjI) (rule r sc hair perfume skin cat name both)+
qed

theorem scope_priority_chain_witness:
  "trim (toLowerCase ''Weekly HAIR sales for Gucci'') = ''weekly hair sales for gucci''
   \<and> ''weekly hair sales for gucci'' \<noteq> []
   \<and> includes_str ''weekly hair sales for gucci'' ''hair''
   \<and> includes_str ''weekly hair sales for gucci'' ''gucci''
   \<and> (\<exists>r. parseSalesQuery ''Weekly HAIR sales for Gucci'' = Inr r \<and> scope r = ByType ''hair'')"
proof -
  have h1: "trim (toLowerCase ''Weekly HAIR sales for Gucci'') = ''weekly hair sales for gucci''"
    by code_simp
  have h2: "''weekly hair sales for gucci'' \<noteq> []" by simp
  have h3: "includes_str ''weekly hair sales for gucci'' ''hair''" by code_simp
  have h4: "includes_str ''weekly hair sales for gucci'' ''gucci''" by code_simp
  from scope_priority_chain [OF h1 h2] h3
  have "\<exists>r. parseSalesQuery ''Weekly HAIR sales for Gucci'' = Inr r \<and> scope r = ByType ''hair''"
    by blast
  with h1 h2 h3 h4 show ?thesis by blast
qed

text \<open>
  C8.  When no type keyword occurs in \<open>q\<close>, the first keyword of \<open>categoryMap\<close> that occurs
  in \<open>q\<close> decides, and the scope is that keyword with each white space run replaced by one
  underscore; so \<open>victoria secret\<close>, when none of the three keywords before it occurs, gives
  the category \<open>victoria_secret\<close>.
\<close>

theorem category_keyword_scope:
  assumes "trim (toLowerCase s) = q" and "q \<noteq> []"
    and "\<not> list_ex (includes_str q) type_keywords"
  shows "\<exists>r. parseSalesQuery s = Inr r
     \<and> (\<forall>i<length categoryMap.
            includes_str q (categoryMap ! i) \<and> (\<forall>j<i. \<not> includes_str q (categoryMap ! j))
            \<longrightarrow> scope r = ByCategory (underscore_runs (categoryMap ! i)))
     \<and> (list_ex (includes_str q) categoryMap
          \<longrightarrow> (\<exists>cat\<in>set categoryMap. includes_str q cat
                 \<and> scope r = ByCategory (underscore_runs cat)))
     \<and> (includes_str q ''victoria secret'' \<and> \<not> includes_str q ''shampoo''
          \<and> \<not> includes_str q ''conditioner'' \<and> \<not> includes_str q ''gucci''
          \<longrightarrow> scope r = ByCategory ''victoria_secret'')
     \<and> map underscore_runs categoryMap =
         [''shampoo'', ''conditioner'', ''gucci'', ''victoria_secret'', ''victoria_secret'',
          ''body_lotion'', ''body_lotion'', ''moisturizer'']"
proof -
  let ?r = "\<lparr>period = period_by_rules q, scope = scope_chain q\<rparr>"
  have r: "parseSalesQuery s = Inr ?r" by (rule parseSalesQuery_nonempty [OF assms(1,2)])
  from assms(3) have none: "find (includes_str q) type_keywords = None"
    by (simp add: find_None_iff list_ex_iff)
  have found: "scope ?r = ByCategory (underscore_runs cat)"
    if "find (includes_str q) categoryMap = Some cat" for cat
    using that none by (simp add: scope_chain_def replace_whitespace_underscore)
  have first: "\<forall>i<length categoryMap.
      includes_str q (categoryMap ! i) \<and> (\<forall>j<i. \<not> includes_str q (categoryMap ! j))
      \<longrightarrow> scope ?r = ByCategory (underscore_runs (categoryMap ! i))"
    using found find_first_index [of _ categoryMap "includes_str q"] by blast
  have some: "list_ex (includes_str q) categoryMap
      \<longrightarrow> (\<exists>cat\<in>set categoryMap. includes_str q cat \<and> scope ?r = ByCategory (underscore_runs cat))"
  proof
    assume "list_ex (includes_str q) categoryMap"
    then obtain cat where c: "find (includes_str q) categoryMap = Some cat"
      by (cases "find (includes_str q) categoryMap") (auto simp: find_None_iff list_ex_iff)
    then have "cat \<in> set categoryMap" "includes_str q cat" by (auto simp: find_Some_iff)
    with found [OF c]
    show "\<exists>cat\<in>set categoryMap. includes_str q cat \<and> scope ?r = ByCategory (underscore_runs cat)"
      by blast
  qed
  have norm: "map underscore_runs categoryMap =
         [''shampoo'', ''conditioner'', ''gucci'', ''victoria_secret'', ''victoria_secret'',
          ''body_lotion'', ''body_lotion'', ''moisturizer'']"
    by code_simp
  have vs: "includes_str q ''victoria secret'' \<and> \<not> includes_str q ''shampoo''
          \<and> \<not> includes_str q ''conditioner'' \<and> \<not> includes_str q ''gucci''
          \<longrightarrow> scope ?r = ByCategory ''victoria_secret''"
  proof
    assume a: "includes_str q ''victoria secret'' \<and> \<not> includes_str q ''shampoo''
          \<and> \<not> includes_str q ''conditioner'' \<and> \<not> includes_str q ''gucci''"
    then have "find (includes_str q) categoryMap = Some ''victoria secret''"
      by (simp add: categoryMap_def)
    from found [OF this] have "scope ?r = ByCategory (underscore_runs ''victoria secret'')" .
    also have "underscore_runs ''victoria secret'' = ''victoria_secret''" by code_simp
    finally show "scope ?r = ByCategory ''victoria_secret''" .
  qed
  show ?thesis
    by (intro exI [of _ ?r] conjI) (rule r first some vs norm)+
qed

theorem category_keyword_scope_witness:
  "trim (toLowerCase ''Sales for Victoria Secret'') = ''sales for victoria secret''
   \<and> ''sales for victoria secret'' \<noteq> []
   \<and> \<not> list_ex (includes_str ''sales for victoria secret'') type_keywords
   \<and> includes_str ''sales for victoria secret'' ''victoria secret''
   \<and> (\<exists>r. parseSalesQuery ''Sales for Victoria Secret'' = Inr r
          \<and> scope r = ByCategory ''victoria_secret'')"
proof -
  have h1: "trim (toLowerCase ''Sales for Victoria Secret'') = ''sales for victoria secret''"
    by code_simp
  have h2: "''sales for victoria secret'' \<noteq> []" by simp
  have h3: "\<not> list_ex (includes_str ''sales for victoria secret'') type_keywords" by code_simp
  have h4: "includes_str ''sales for victoria secret'' ''victoria secret''" by code_simp
  have h5: "\<not> includes_str ''sales for victoria secret'' ''shampoo''" by code_simp
  have h6: "\<not> includes_str ''sales for victoria secret'' ''conditioner''" by code_simp
  have h7: "\<not> includes_str ''sales for victoria secret'' ''gucci''" by code_simp
  from category_keyword_scope [OF h1 h2 h3] h4 h5 h6 h7
  have "\<exists>r. parseSalesQuery ''Sales for Victoria Secret'' = Inr r
          \<and> scope r = ByCategory ''victoria_secret''"
    by blast
  with h1 h2 h3 h4 show ?thesis by blast
qed

section \<open>Resolution of the period\<close>

text \<open>
  C2.  For a query whose lower-cased, trimmed text \<open>q\<close> is not empty, the period follows the
  rules in their order: per day by default, per week when \<open>q\<close> contains \<open>week\<close>, \<open>weekly\<close> or
  \<open>this week\<close>, per day again when it contains \<open>today\<close>, and per day again when it contains
  \<open>per day\<close> or \<open>daily\<close>.  So \<open>week\<close> together with \<open>today\<close> or with \<open>daily\<close> gives per day,
  and \<open>week\<close> with none of the three phrases gives per week.
\<close>

theorem period_rule_order:
  assumes "trim (toLowerCase s) = q" and "q \<noteq> []"
  shows "\<exists>r. parseSalesQuery s = Inr r
     \<and> period r = period_by_rules q
     \<and> (includes_str q ''per day'' \<or> includes_str q ''daily'' \<longrightarrow> period r = Day)
     \<and> (includes_str q ''today'' \<longrightarrow> period r = Day)
     \<and> (includes_str q ''week'' \<and> includes_str q ''today'' \<longrightarrow> period r = Day)
     \<and> (includes_str q ''week'' \<and> includes_str q ''daily'' \<longrightarrow> period r = Day)
     \<and> ((includes_str q ''week'' \<or> includes_str q ''weekly'' \<or> includes_str q ''this week'')
          \<and> \<not> includes_str q ''today'' \<and> \<not> includes_str q ''per day'' \<and> \<not> includes_str q ''daily''
          \<longrightarrow> period r = Week)
     \<and> (\<not> includes_str q ''week'' \<and> \<not> includes_str q ''weekly'' \<and> \<not> includes_str q ''this week''
          \<longrightarrow> period r = Day)"
proof -
  let ?r = "\<lparr>period = period_by_rules q, scope = scope_chain q\<rparr>"
  have r: "parseSalesQuery s = Inr ?r" by (rule parseSalesQuery_nonempty [OF assms])
  have pr: "period ?r = period_by_rules q" by simp
  have rules: "period_by_rules q =
      (if includes_str q ''per day'' \<or> includes_str q ''daily'' then Day
       else if includes_str q ''today'' then Day
       else if includes_str q ''week'' \<or> includes_str q ''weekly'' \<or> includes_str q ''this week''
         then Week else Day)"
    by (simp add: period_by_rules_def period_rules_def)
  show ?thesis
    by (intro exI [of _ ?r] conjI) (simp_all only: r pr, simp_all add: rules)
qed

theorem period_rule_order_witness:
  "trim (toLowerCase ''Sales this week, not today'') = ''sales this week, not today''
   \<and> ''sales this week, not today'' \<noteq> []
   \<and> includes_str ''sales this week, not today'' ''week''
   \<and> includes_str ''sales this week, not today'' ''today''
   \<and> (\<exists>r. parseSalesQuery ''Sales this week, not today'' = Inr r \<and> period r = Day)"
proof -
  have h1: "trim (toLowerCase ''Sales this week, not today'') = ''sales this week, not today''"
    by code_simp
  have h2: "''sales this week, not today'' \<noteq> []" by simp
  have h3: "includes_str ''sales this week, not today'' ''week''" by code_simp
  have h4: "includes_str ''sales this week, not today'' ''today''" by code_simp
  from period_rule_order [OF h1 h2] h3 h4
  have "\<exists>r. parseSalesQuery ''Sales this week, not today'' = Inr r \<and> period r = Day"
    by blast
  with h1 h2 h3 h4 show ?thesis by blast
qed

section \<open>The name fallback\<close>

text \<open>
  C10.  The stop phrases are deleted wherever they occur, also inside a word.  The one-word
  query \<open>forest\<close> contains no type or category keyword and gives the period per day with
  the name pattern \<open>est\<close>: whatever text follows \<open>for\<close>, the stop phrase matches in front of
  it and is deleted.  In the same way \<open>information\<close> gives the pattern \<open>inmation\<close>.
\<close>

theorem stop_phrase_inside_word:
  "parseSalesQuery ''forest'' = Inr \<lparr>period = Day, scope = ByNamePattern ''est''\<rparr>
   \<and> \<not> list_ex (includes_str ''forest'') (type_keywords @ categoryMap)
   \<and> \<not> includes_str ''forest'' '' ''
   \<and> match_alternation stop_regex (''for'' @ rest) = Some rest
   \<and> replace_global stop_regex [] (''for'' @ rest) = replace_global stop_regex [] rest
   \<and> parseSalesQuery ''information'' = Inr \<lparr>period = Day, scope = ByNamePattern ''inmation''\<rparr>"
proof -
  have a: "parseSalesQuery ''forest'' = Inr \<lparr>period = Day, scope = ByNamePattern ''est''\<rparr>"
    by code_simp
  have b: "\<not> list_ex (includes_str ''forest'') (type_keywords @ categoryMap)"
    by code_simp
  have c: "\<not> includes_str ''forest'' '' ''"
    by code_simp
  have d: "match_alternation stop_regex (''for'' @ rest) = Some rest"
    by (simp add: stop_regex_def lit_def toLowerCase_char_def)
  then have e: "replace_global stop_regex [] (''for'' @ rest) = replace_global stop_regex [] rest"
    by (simp del: match_alternation.simps)
  have f: "parseSalesQuery ''information''
      = Inr \<lparr>period = Day, scope = ByNamePattern ''inmation''\<rparr>"
    by code_simp
  from a b c d e f show ?thesis by (intro conjI)
qed

text \<open>
  C5, as the claim states it, fails: the query \<open>how much does Luxury Shampoo sell\<close> is
  interpreted, and its scope is the category \<open>shampoo\<close>, not a name pattern.
\<close>

theorem luxury_shampoo_counterexample:
  "\<not> isl (parseSalesQuery ''how much does Luxury Shampoo sell'')
   \<and> scope (projr (parseSalesQuery ''how much does Luxury Shampoo sell'')) = ByCategory ''shampoo''
   \<and> \<not> isByNamePattern (scope (projr (parseSalesQuery ''how much does Luxury Shampoo sell'')))"
  by code_simp

text \<open>
  C5, amended.  The query \<open>how much does Luxury Shampoo sell\<close> gives the period per day and
  the category \<open>shampoo\<close>: \<open>shampoo\<close> is the first category keyword in its text, and the
  category rule comes before the name fallback.  The fallback, with \<open>how much\<close> stripped and
  \<open>does\<close> kept, is what a query without a keyword gets: \<open>how much does Luxury Soap sell\<close>
  gives the name pattern \<open>does luxury soap sell\<close>.
\<close>

theorem luxury_shampoo_category:
  "parseSalesQuery ''how much does Luxury Shampoo sell''
     = Inr \<lparr>period = Day, scope = ByCategory ''shampoo''\<rparr>
   \<and> find (includes_str (trim (toLowerCase ''how much does Luxury Shampoo sell''))) categoryMap
       = Some ''shampoo''
   \<and> parseSalesQuery ''how much does Luxury Soap sell''
       = Inr \<lparr>period = Day, scope = ByNamePattern ''does luxury soap sell''\<rparr>"
  by code_simp

section \<open>Line items and totals\<close>

lemma foldl_add_sum_list:
  "foldl (\<lambda>s r. s + f r) a xs = a + sum_list (map f xs)" for a :: rat
  by (induction xs arbitrary: a) (simp_all add: add.assoc)

lemma r_sales_lineItem:
  "r_sales (lineItem per p) = (if per = Week then p_sales_per_day p * 7 else p_sales_per_day p)"
  by (simp add: lineItem_def Let_def)

lemma r_revenue_lineItem:
  "r_revenue (lineItem per p) = r_sales (lineItem per p) * p_cost p"
  by (simp add: lineItem_def Let_def)

lemma r_cost_lineItem: "r_cost (lineItem per p) = p_cost p"
  by (simp add: lineItem_def Let_def)

lemma computeLineItems_items: "fst (computeLineItems products per) = map (lineItem per) products"
  by (simp add: computeLineItems_def Let_def)

lemma computeLineItems_sales:
  "total_sales (snd (computeLineItems products per))
     = sum_list (map (\<lambda>p. r_sales (lineItem per p)) products)"
  by (simp add: computeLineItems_def Let_def foldl_add_sum_list comp_def)

lemma computeLineItems_revenue:
  "total_revenue (snd (computeLineItems products per))
     = sum_list (map (\<lambda>p. r_revenue (lineItem per p)) products)"
  by (simp add: computeLineItems_def Let_def foldl_add_sum_list comp_def)

text \<open>
  C4.  With the numbers taken as exact rationals: for the period per week the total of the
  sales is the sum of \<open>sales_per_day\<close> times 7 (the sum of the products by 7 as well as 7
  times the sum) and the total of the revenue is the sum of \<open>sales_per_day * 7 * cost\<close>; for
  the period per day the total of the sales is the sum of \<open>sales_per_day\<close>.  The sales of a
  line item are \<open>sales_per_day * 7\<close> per week and \<open>sales_per_day\<close> per day, and its revenue is
  its sales times its cost.
\<close>

theorem line_item_totals:
  "total_sales (snd (computeLineItems products Week)) = (\<Sum>p\<leftarrow>products. p_sales_per_day p) * 7
   \<and> total_sales (snd (computeLineItems products Week)) = (\<Sum>p\<leftarrow>products. p_sales_per_day p * 7)
   \<and> total_revenue (snd (computeLineItems products Week))
       = (\<Sum>p\<leftarrow>products. p_sales_per_day p * 7 * p_cost p)
   \<and> total_sales (snd (computeLineItems products Day)) = (\<Sum>p\<leftarrow>products. p_sales_per_day p)
   \<and> total_revenue (snd (computeLineItems products Day))
       = (\<Sum>p\<leftarrow>products. p_sales_per_day p * p_cost p)
   \<and> map r_sales (fst (computeLineItems products Week)) = map (\<lambda>p. p_sales_per_day p * 7) products
   \<and> map r_sales (fst (computeLineItems products Day)) = map p_sales_per_day products
   \<and> map r_revenue (fst (computeLineItems products per))
       = map (\<lambda>i. r_sales i * r_cost i) (fst (computeLineItems products per))
   \<and> map r_cost (fst (computeLineItems products per)) = map p_cost products"
proof -
  have a: "total_sales (snd (computeLineItems products Week))
      = (\<Sum>p\<leftarrow>products. p_sales_per_day p * 7)"
    by (simp add: computeLineItems_sales r_sales_lineItem)
  also have "\<dots> = (\<Sum>p\<leftarrow>products. p_sales_per_day p) * 7"
    by (simp add: sum_list_mult_const)
  finally have b: "total_sales (snd (computeLineItems products Week))
      = (\<Sum>p\<leftarrow>products. p_sales_per_day p) * 7" .
  have c: "total_revenue (snd (computeLineItems products Week))
       = (\<Sum>p\<leftarrow>products. p_sales_per_day p * 7 * p_cost p)"
    by (simp add: computeLineItems_revenue r_revenue_lineItem r_sales_lineItem)
  have d: "total_sales (snd (computeLineItems products Day)) = (\<Sum>p\<leftarrow>products. p_sales_per_day p)"
    by (simp add: computeLineItems_sales r_sales_lineItem)
  have e: "total_revenue (snd (computeLineItems products Day))
       = (\<Sum>p\<leftarrow>products. p_sales_per_day p * p_cost p)"
    by (simp add: computeLineItems_revenue r_revenue_lineItem r_sales_lineItem)
  have f: "map r_sales (fst (computeLineItems products Week))
      = map (\<lambda>p. p_sales_per_day p * 7) products"
    by (simp add: computeLineItems_items r_sales_lineItem)
  have g: "map r_sales (fst (computeLineItems products Day)) = map p_sales_per_day products"
    by (simp add: computeLineItems_items r_sales_lineItem)
  have h: "map r_revenue (fst (computeLineItems products per))
       = map (\<lambda>i. r_sales i * r_cost i) (fst (computeLineItems products per))"
    by (simp add: computeLineItems_items r_revenue_lineItem r_cost_lineItem)
  have i: "map r_cost (fst (computeLineItems products per)) = map p_cost products"
    by (simp add: computeLineItems_items r_cost_lineItem)
  from a b c d e f g h i show ?thesis by blast
qed

theorem line_item_totals_witness:
  "total_sales (snd (computeLineItems sampleProducts Week)) = 581
   \<and> total_sales (snd (computeLineItems sampleProducts Day)) = 83
   \<and> map r_sales (fst (computeLineItems sampleProducts Week)) = [105, 84, 56, 70, 140, 126]"
  using line_item_totals [of sampleProducts] by (simp add: sampleProducts_def)

section \<open>Order of the result rows\<close>

lemma sorted_order_by_name: "sorted (map p_name (order_by_name rows))"
  by (simp add: order_by_name_def)

lemma set_order_by_name: "set (order_by_name rows) = set rows"
  by (simp add: order_by_name_def)

lemma sorted_uminus_desc: "sorted (map (\<lambda>x. - f x) xs) \<Longrightarrow> sorted_wrt (\<ge>) (map f xs)" for f :: "'a \<Rightarrow> rat"
  by (induction xs) auto

lemma desc_order_by_weekly_sales:
  "sorted_wrt (\<ge>) (map (\<lambda>p. p_sales_per_day p * 7) (order_by_weekly_sales_desc rows))"
proof -
  have "sorted (map (\<lambda>p. - (p_sales_per_day p * 7)) (order_by_weekly_sales_desc rows))"
    unfolding order_by_weekly_sales_desc_def by (rule sorted_sort_key)
  then show ?thesis by (rule sorted_uminus_desc)
qed

lemma set_order_by_weekly_sales_desc: "set (order_by_weekly_sales_desc rows) = set rows"
  by (simp add: order_by_weekly_sales_desc_def)

lemma weekly_sales_weekly_row: "map weekly_sales (map weekly_row rows) = map (\<lambda>p. p_sales_per_day p * 7) rows"
  by (simp add: weekly_row_def comp_def)

lemma weekly_select_type:
  "weekly_select table (Some t) None
     = map weekly_row (order_by_weekly_sales_desc (filter (\<lambda>p. p_type p = t) table))"
  by (simp add: weekly_select_def)

lemma weekly_type_desc:
  "sorted_wrt (\<ge>) (map weekly_sales (weekly_select table (Some t) None))"
  by (simp only: weekly_select_type weekly_sales_weekly_row desc_order_by_weekly_sales)

lemma weekly_type_rows:
  "row \<in> set (weekly_select table (Some t) None)
     \<Longrightarrow> p_type row = t \<and> weekly_sales row = p_sales_per_day row * 7"
  by (auto simp: weekly_select_type set_order_by_weekly_sales_desc weekly_row_def)

lemma api_query_items:
  assumes "api_query table question = Inr resp"
  shows "\<exists>parsed. parseSalesQuery question = Inr parsed
     \<and> q_interpreted resp = parsed
     \<and> q_items resp = map (lineItem (period parsed))
          (order_by_name (filter (scope_where (scope parsed)) table))"
  using assms
  by (auto simp: api_query_def computeLineItems_def Let_def split: sum.splits)

lemma r_name_lineItem: "r_name (lineItem per p) = p_name p"
  by (simp add: lineItem_def Let_def)

text \<open>
  C6, as the claim states it, fails on the natural language query: on the sample catalogue
  the query \<open>weekly sales for hair\<close> has the scope of the type \<open>hair\<close>, and its rows come in
  the order of the names, with the weekly sales 84 before 105.
\<close>

theorem query_order_counterexample:
  "scope (q_interpreted (projr (api_query sampleProducts ''weekly sales for hair''))) = ByType ''hair''
   \<and> map r_name (q_items (projr (api_query sampleProducts ''weekly sales for hair'')))
       = [''Conditioner Plus'', ''Shampoo Pro'']
   \<and> map r_sales (q_items (projr (api_query sampleProducts ''weekly sales for hair''))) = [84, 105]
   \<and> \<not> sorted_wrt (\<ge>)
         (map r_sales (q_items (projr (api_query sampleProducts ''weekly sales for hair''))))"
  by code_simp

text \<open>
  C6, amended.  The listing, in both front ends, orders its rows by name ascending.  The
  weekly sales of a type, in both front ends, are the rows of that type ordered by
  descending weekly sales, \<open>sales_per_day * 7\<close>.  The natural language query orders its rows
  by name ascending for every scope, the scope of a type included.
\<close>

theorem result_ordering:
  "sorted (map p_name (api_products table name_f type_f category_f))
   \<and> sorted (map p_name (get_products table name_f type_f category_f))
   \<and> sorted_wrt (\<ge>) (map weekly_sales (w_products (api_sales_weekly table (Some t) None)))
   \<and> sorted_wrt (\<ge>) (map weekly_sales (w_products (get_weekly_sales table (Some t) None)))
   \<and> (\<forall>row\<in>set (w_products (api_sales_weekly table (Some t) None)).
         p_type row = t \<and> weekly_sales row = p_sales_per_day row * 7)
   \<and> (\<forall>row\<in>set (w_products (get_weekly_sales table (Some t) None)).
         p_type row = t \<and> weekly_sales row = p_sales_per_day row * 7)
   \<and> (\<forall>resp. api_query table question = Inr resp \<longrightarrow> sorted (map r_name (q_items resp)))"
proof -
  have a: "sorted (map p_name (api_products table name_f type_f category_f))"
    by (simp add: api_products_def sorted_order_by_name)
  have b: "sorted (map p_name (get_products table name_f type_f category_f))"
    by (simp add: get_products_def sorted_order_by_name)
  have w1: "w_products (api_sales_weekly table (Some t) None) = weekly_select table (Some t) None"
    by (simp add: api_sales_weekly_def weekly_totals_def Let_def)
  have w2: "w_products (get_weekly_sales table (Some t) None) = weekly_select table (Some t) None"
    by (simp add: get_weekly_sales_def weekly_totals_def Let_def)
  have c: "sorted_wrt (\<ge>) (map weekly_sales (w_products (api_sales_weekly table (Some t) None)))"
    by (simp only: w1 weekly_type_desc)
  have d: "sorted_wrt (\<ge>) (map weekly_sales (w_products (get_weekly_sales table (Some t) None)))"
    by (simp only: w2 weekly_type_desc)
  have e: "\<forall>row\<in>set (w_products (api_sales_weekly table (Some t) None)).
         p_type row = t \<and> weekly_sales row = p_sales_per_day row * 7"
    unfolding w1 using weekly_type_rows by blast
  have f: "\<forall>row\<in>set (w_products (get_weekly_sales table (Some t) None)).
         p_type row = t \<and> weekly_sales row = p_sales_per_day row * 7"
    unfolding w2 using weekly_type_rows by blast
  have g: "\<forall>resp. api_query table question = Inr resp \<longrightarrow> sorted (map r_name (q_items resp))"
  proof (intro allI impI)
    fix resp assume "api_query table question = Inr resp"
    from api_query_items [OF this] obtain parsed :: interpreted where
      "q_items resp = map (lineItem (period parsed))
          (order_by_name (filter (scope_where (scope parsed)) table))"
      by blast
    then show "sorted (map r_name (q_items resp))"
      by (simp add: comp_def r_name_lineItem sorted_order_by_name)
  qed
  from a b c d e f g show ?thesis by blast
qed

theorem result_ordering_witness:
  "(\<exists>resp. api_query sampleProducts ''weekly sales for hair'' = Inr resp
       \<and> map r_name (q_items resp) = [''Conditioner Plus'', ''Shampoo Pro'']
       \<and> sorted (map r_name (q_items resp)))
   \<and> map weekly_sales (w_products (api_sales_weekly sampleProducts (Some ''hair'') None)) = [105, 84]
   \<and> sorted_wrt (\<ge>)
        (map weekly_sales (w_products (api_sales_weekly sampleProducts (Some ''hair'') None)))"
proof -
  have h1: "\<not> isl (api_query sampleProducts ''weekly sales for hair'')" by code_simp
  have h2: "map r_name (q_items (projr (api_query sampleProducts ''weekly sales for hair'')))
       = [''Conditioner Plus'', ''Shampoo Pro'']" by code_simp
  have h3: "map weekly_sales (w_products (api_sales_weekly sampleProducts (Some ''hair'') None))
       = [105, 84]" by code_simp
  from h1 obtain resp where r: "api_query sampleProducts ''weekly sales for hair'' = Inr resp"
    by (cases "api_query sampleProducts ''weekly sales for hair''") auto
  with h2 have n: "map r_name (q_items resp) = [''Conditioner Plus'', ''Shampoo Pro'']" by simp
  from result_ordering [of sampleProducts _ _ _ "''hair''" "''weekly sales for hair''"] r
  have "sorted (map r_name (q_items resp))"
    and "sorted_wrt (\<ge>)
        (map weekly_sales (w_products (api_sales_weekly sampleProducts (Some ''hair'') None)))"
    by simp_all
  with r n h3 show ?thesis by (intro conjI exI [of _ resp])
qed

section \<open>Statistics by type\<close>





end
